theory Spec2Isabelle
  imports Main "HOL-Library.Sublist"
begin

section \<open>Data model of \<open>pkg/cmd/task/delete.go\<close>\<close>

text \<open>
  A Go \<open>error\<close> value is observed by the code only through its message (the \<open>%s\<close>
  verb calls \<open>Error()\<close>), so an error is modelled by its message; a possibly-nil error
  is an \<open>error option\<close>, \<open>None\<close> being \<open>nil\<close>.
\<close>

type_synonym error = string

text \<open>\<open>options.DeleteOptions\<close>: the three fields the command sets.\<close>

record DeleteOptions =
  Resource :: string
  ForceDelete :: bool
  DeleteAll :: bool

text \<open>
  \<open>cli.Stream\<close>: the two writers \<open>deleteTask\<close> prints to. Each field is modelled by
  the sequence of writes issued through it; each \<open>fmt.Fprintf\<close> is one write.
\<close>

record Stream =
  Out :: "string list"
  Err :: "string list"

text \<open>
  The Tekton clientset is an external collaborator. It is modelled by its three calls
  used here, each a transition on the state \<open>'st\<close> of the remote cluster: the first
  argument is the namespace, the second the resource name (for \<open>List\<close>, the label
  selector). \<open>List\<close> yields the names of \<open>taskRuns.Items\<close>, the only field read.
  \<open>TriggerTemplatesDelete\<close> is the call of the sibling command.
\<close>

record 'st Clientset =
  TasksDelete :: "string \<Rightarrow> string \<Rightarrow> 'st \<Rightarrow> error option \<times> 'st"
  TaskRunsList :: "string \<Rightarrow> string \<Rightarrow> 'st \<Rightarrow> (error + string list) \<times> 'st"
  TaskRunsDelete :: "string \<Rightarrow> string \<Rightarrow> 'st \<Rightarrow> error option \<times> 'st"
  TriggerTemplatesDelete :: "string \<Rightarrow> string \<Rightarrow> 'st \<Rightarrow> error option \<times> 'st"

text \<open>\<open>cli.Params\<close>: \<open>p.Clients()\<close> returns the clientset or an error, \<open>p.Namespace()\<close> a name.\<close>

record 'st Params =
  Clients :: "error + 'st Clientset"
  Namespace :: string

text \<open>
  The calls made on the clientset, in program order, each with the result it returned.
  This history is what "attempted", "invoked" and "succeeded" refer to.
\<close>

datatype call =
    Tasks_Delete string string "error option"
  | TaskRuns_List string string "error + string list"
  | TaskRuns_Delete string string "error option"
  | TriggerTemplates_Delete string string "error option"

text \<open>
  The local variables of \<open>deleteTask\<close> together with what it acts on: the cluster, the
  history of calls, the stream \<open>s\<close>, and \<open>errs\<close>, \<open>successfulTasks\<close>,
  \<open>successfulTaskRuns\<close>.
\<close>

record 'st state =
  cluster :: 'st
  calls :: "call list"
  s :: Stream
  errs :: "error list"
  successfulTasks :: "string list"
  successfulTaskRuns :: "string list"

section \<open>Library functions\<close>

definition newline :: string where
  "newline = [CHR 0x0A]"

text \<open>
  \<open>multierr.Combine\<close>: \<open>nil\<close> for no error, the error itself for one, and for several an
  error whose message joins theirs with \<open>"; "\<close>. Only non-nil errors are ever appended
  to \<open>errs\<close>, so the filtering of nil arguments has no counterpart here.
\<close>

fun joinWith :: "string \<Rightarrow> string list \<Rightarrow> string" where
  "joinWith sep [] = []"
| "joinWith sep [x] = x"
| "joinWith sep (x # y # ys) = x @ sep @ joinWith sep (y # ys)"

fun multierr_Combine :: "error list \<Rightarrow> error option" where
  "multierr_Combine [] = None"
| "multierr_Combine [e] = Some e"
| "multierr_Combine es = Some (joinWith ''; '' es)"

text \<open>
  Modelled from the spec: \<open>names.QuotedList\<close> of \<open>pkg/helper/names\<close>, which is not among
  the sources. The spec has the names "comma-joined, each individually quoted" and
  shows \<open>'a', 'b'\<close>.
\<close>

definition quoted :: "string \<Rightarrow> string" where
  "quoted name = [CHR 0x27] @ name @ [CHR 0x27]"

definition QuotedList :: "string list \<Rightarrow> string" where
  "QuotedList names = joinWith '', '' (map quoted names)"

section \<open>\<open>deleteTask\<close>\<close>

text \<open>
  The closure \<open>addPrintErr\<close>: append to \<open>errs\<close>, then print the error and a newline
  on \<open>s.Err\<close>.
\<close>

definition addPrintErr :: "error \<Rightarrow> 'st state \<Rightarrow> 'st state" where
  "addPrintErr err \<sigma> =
     \<sigma>\<lparr>errs := errs \<sigma> @ [err],
       s := (s \<sigma>)\<lparr>Err := Err (s \<sigma>) @ [err @ newline]\<rparr>\<rparr>"

text \<open>
  The two \<open>fmt.Errorf\<close> calls. The rendering of the \<open>%q\<close> verb (Go's \<open>fmt\<close> package)
  is the parameter \<open>q\<close> throughout.
\<close>

definition Errorf_task :: "(string \<Rightarrow> string) \<Rightarrow> string \<Rightarrow> error \<Rightarrow> error" where
  "Errorf_task q tName err = ''failed to delete task '' @ q tName @ '': '' @ err"

definition Errorf_taskrun :: "(string \<Rightarrow> string) \<Rightarrow> string \<Rightarrow> error \<Rightarrow> error" where
  "Errorf_taskrun q trName err = ''failed to delete taskrun '' @ q trName @ '': '' @ err"

definition LabelSelector :: "string \<Rightarrow> string" where
  "LabelSelector tName = ''tekton.dev/task='' @ tName"

text \<open>The inner loop over \<open>taskRuns.Items\<close> (lines 114 to 120).\<close>

fun deleteTaskRuns ::
  "(string \<Rightarrow> string) \<Rightarrow> 'st Clientset \<Rightarrow> string \<Rightarrow> string list \<Rightarrow> 'st state \<Rightarrow> 'st state"
where
  "deleteTaskRuns q cs ns [] \<sigma> = \<sigma>"
| "deleteTaskRuns q cs ns (tr # trs) \<sigma> =
     (case TaskRunsDelete cs ns tr (cluster \<sigma>) of (r, c') \<Rightarrow>
        let \<sigma>1 = \<sigma>\<lparr>cluster := c', calls := calls \<sigma> @ [TaskRuns_Delete ns tr r]\<rparr> in
        (case r of
           Some err \<Rightarrow> deleteTaskRuns q cs ns trs (addPrintErr (Errorf_taskrun q tr err) \<sigma>1)
         | None \<Rightarrow>
             deleteTaskRuns q cs ns trs
               (\<sigma>1\<lparr>successfulTaskRuns := successfulTaskRuns \<sigma>1 @ [tr]\<rparr>)))"

text \<open>One iteration of the outer loop (lines 94 to 120), for the name \<open>tName\<close>.\<close>

definition deleteTask_body ::
  "(string \<Rightarrow> string) \<Rightarrow> DeleteOptions \<Rightarrow> 'st Clientset \<Rightarrow> string \<Rightarrow> string \<Rightarrow> 'st state
     \<Rightarrow> 'st state"
where
  "deleteTask_body q opts cs ns tName \<sigma> =
     (case TasksDelete cs ns tName (cluster \<sigma>) of (r, c') \<Rightarrow>
        let \<sigma>1 = \<sigma>\<lparr>cluster := c', calls := calls \<sigma> @ [Tasks_Delete ns tName r]\<rparr> in
        (case r of
           Some err \<Rightarrow> addPrintErr (Errorf_task q tName err) \<sigma>1
         | None \<Rightarrow>
             let \<sigma>2 = \<sigma>1\<lparr>successfulTasks := successfulTasks \<sigma>1 @ [tName]\<rparr> in
             if \<not> DeleteAll opts then \<sigma>2
             else
               (case TaskRunsList cs ns (LabelSelector tName) (cluster \<sigma>2) of (l, c'') \<Rightarrow>
                  let \<sigma>3 = \<sigma>2\<lparr>cluster := c'',
                               calls := calls \<sigma>2 @ [TaskRuns_List ns (LabelSelector tName) l]\<rparr> in
                  (case l of
                     Inl err \<Rightarrow> addPrintErr err \<sigma>3
                   | Inr items \<Rightarrow> deleteTaskRuns q cs ns items \<sigma>3))))"

text \<open>The outer loop over \<open>tNames\<close> (line 93).\<close>

fun deleteTask_loop ::
  "(string \<Rightarrow> string) \<Rightarrow> DeleteOptions \<Rightarrow> 'st Clientset \<Rightarrow> string \<Rightarrow> string list \<Rightarrow> 'st state
     \<Rightarrow> 'st state"
where
  "deleteTask_loop q opts cs ns [] \<sigma> = \<sigma>"
| "deleteTask_loop q opts cs ns (tName # rest) \<sigma> =
     deleteTask_loop q opts cs ns rest (deleteTask_body q opts cs ns tName \<sigma>)"

text \<open>The two conditional success lines (lines 123 to 128).\<close>

definition printSuccess :: "'st state \<Rightarrow> 'st state" where
  "printSuccess \<sigma> =
     (let \<sigma>1 = (if length (successfulTaskRuns \<sigma>) > 0
                then \<sigma>\<lparr>s := (s \<sigma>)\<lparr>Out := Out (s \<sigma>) @
                        [''TaskRuns deleted: '' @ QuotedList (successfulTaskRuns \<sigma>) @ newline]\<rparr>\<rparr>
                else \<sigma>)
      in if length (successfulTasks \<sigma>1) > 0
         then \<sigma>1\<lparr>s := (s \<sigma>1)\<lparr>Out := Out (s \<sigma>1) @
                        [''Tasks deleted: '' @ QuotedList (successfulTasks \<sigma>1) @ newline]\<rparr>\<rparr>
         else \<sigma>1)"

text \<open>The state on entry: nothing called, nothing recorded.\<close>

definition init :: "Stream \<Rightarrow> 'st \<Rightarrow> 'st state" where
  "init st c = \<lparr>cluster = c, calls = [], s = st, errs = [],
                successfulTasks = [], successfulTaskRuns = []\<rparr>"

text \<open>
  \<open>deleteTask\<close>: the returned error and the final state. \<open>c\<close> is the state of the
  cluster when the command starts.
\<close>

definition deleteTask ::
  "(string \<Rightarrow> string) \<Rightarrow> DeleteOptions \<Rightarrow> Stream \<Rightarrow> 'st Params \<Rightarrow> 'st \<Rightarrow> string list
     \<Rightarrow> error option \<times> 'st state"
where
  "deleteTask q opts st p c tNames =
     (case Clients p of
        Inl err \<Rightarrow> (Some ''failed to create tekton client'', init st c)
      | Inr cs \<Rightarrow>
          let \<sigma> = printSuccess (deleteTask_loop q opts cs (Namespace p) tNames (init st c))
          in (multierr_Combine (errs \<sigma>), \<sigma>))"

section \<open>\<open>deleteTriggerTemplates\<close>\<close>

text \<open>
  The sibling command of package \<open>triggertemplate\<close>: the same loop with no cascade,
  its locals being \<open>errs\<close> and \<open>success\<close>.
\<close>

record 'st tt_state =
  tt_cluster :: 'st
  tt_calls :: "call list"
  tt_s :: Stream
  tt_errs :: "error list"
  success :: "string list"

definition Errorf_triggertemplate :: "(string \<Rightarrow> string) \<Rightarrow> string \<Rightarrow> error \<Rightarrow> error" where
  "Errorf_triggertemplate q ttName err =
     ''failed to delete triggertemplate '' @ q ttName @ '': '' @ err"

fun deleteTriggerTemplates_loop ::
  "(string \<Rightarrow> string) \<Rightarrow> 'st Clientset \<Rightarrow> string \<Rightarrow> string list \<Rightarrow> 'st tt_state \<Rightarrow> 'st tt_state"
where
  "deleteTriggerTemplates_loop q cs ns [] \<sigma> = \<sigma>"
| "deleteTriggerTemplates_loop q cs ns (ttName # rest) \<sigma> =
     (case TriggerTemplatesDelete cs ns ttName (tt_cluster \<sigma>) of (r, c') \<Rightarrow>
        let \<sigma>1 = \<sigma>\<lparr>tt_cluster := c',
                     tt_calls := tt_calls \<sigma> @ [TriggerTemplates_Delete ns ttName r]\<rparr> in
        (case r of
           Some err0 \<Rightarrow>
             let err = Errorf_triggertemplate q ttName err0 in
             deleteTriggerTemplates_loop q cs ns rest
               (\<sigma>1\<lparr>tt_errs := tt_errs \<sigma>1 @ [err],
                    tt_s := (tt_s \<sigma>1)\<lparr>Err := Err (tt_s \<sigma>1) @ [err @ newline]\<rparr>\<rparr>)
         | None \<Rightarrow>
             deleteTriggerTemplates_loop q cs ns rest (\<sigma>1\<lparr>success := success \<sigma>1 @ [ttName]\<rparr>)))"

definition tt_init :: "Stream \<Rightarrow> 'st \<Rightarrow> 'st tt_state" where
  "tt_init st c = \<lparr>tt_cluster = c, tt_calls = [], tt_s = st, tt_errs = [], success = []\<rparr>"

definition deleteTriggerTemplates ::
  "(string \<Rightarrow> string) \<Rightarrow> Stream \<Rightarrow> 'st Params \<Rightarrow> 'st \<Rightarrow> string list
     \<Rightarrow> error option \<times> 'st tt_state"
where
  "deleteTriggerTemplates q st p c ttNames =
     (case Clients p of
        Inl err \<Rightarrow> (Some ''failed to create tekton client'', tt_init st c)
      | Inr cs \<Rightarrow>
          let \<sigma> = deleteTriggerTemplates_loop q cs (Namespace p) ttNames (tt_init st c);
              \<sigma>' = (if length (success \<sigma>) > 0
                    then \<sigma>\<lparr>tt_s := (tt_s \<sigma>)\<lparr>Out := Out (tt_s \<sigma>) @
                           [''TriggerTemplates deleted: '' @ QuotedList (success \<sigma>) @ newline]\<rparr>\<rparr>
                    else \<sigma>)
          in (multierr_Combine (tt_errs \<sigma>'), \<sigma>'))"

section \<open>Reading the history of calls\<close>


fun is_TaskRuns_List :: "call \<Rightarrow> bool" where
  "is_TaskRuns_List (TaskRuns_List ns sel l) = True"
| "is_TaskRuns_List _ = False"


text \<open>The name of a task, or of a taskrun, that this call deleted.\<close>

fun deleted_task :: "call \<Rightarrow> string option" where
  "deleted_task (Tasks_Delete ns n None) = Some n"
| "deleted_task _ = None"

fun deleted_taskrun :: "call \<Rightarrow> string option" where
  "deleted_taskrun (TaskRuns_Delete ns n None) = Some n"
| "deleted_taskrun _ = None"

text \<open>
  The failure entry recorded for a call that returned an error: the error of a delete
  call is wrapped by \<open>fmt.Errorf\<close>, the error of \<open>List\<close> is passed to \<open>addPrintErr\<close>
  as it is.
\<close>

fun failure_of :: "(string \<Rightarrow> string) \<Rightarrow> call \<Rightarrow> error option" where
  "failure_of q (Tasks_Delete ns n (Some e)) = Some (Errorf_task q n e)"
| "failure_of q (TaskRuns_List ns sel (Inl e)) = Some e"
| "failure_of q (TaskRuns_Delete ns n (Some e)) = Some (Errorf_taskrun q n e)"
| "failure_of q (TriggerTemplates_Delete ns n (Some e)) = Some (Errorf_triggertemplate q n e)"
| "failure_of q _ = None"

text \<open>The agreement of the locals and of \<open>s.Err\<close> with the history, and \<open>s.Out\<close> untouched.\<close>

definition agrees :: "(string \<Rightarrow> string) \<Rightarrow> Stream \<Rightarrow> 'st state \<Rightarrow> bool" where
  "agrees q st \<sigma> \<longleftrightarrow>
     errs \<sigma> = List.map_filter (failure_of q) (calls \<sigma>) \<and>
     successfulTasks \<sigma> = List.map_filter deleted_task (calls \<sigma>) \<and>
     successfulTaskRuns \<sigma> = List.map_filter deleted_taskrun (calls \<sigma>) \<and>
     Err (s \<sigma>) = Err st @ map (\<lambda>e. e @ newline) (errs \<sigma>) \<and>
     Out (s \<sigma>) = Out st"

text \<open>A later state extends the history and the three accumulated lists of an earlier one.\<close>

definition grows :: "'st state \<Rightarrow> 'st state \<Rightarrow> bool" where
  "grows \<sigma> \<sigma>' \<longleftrightarrow>
     prefix (calls \<sigma>) (calls \<sigma>') \<and> prefix (errs \<sigma>) (errs \<sigma>') \<and>
     prefix (successfulTasks \<sigma>) (successfulTasks \<sigma>') \<and>
     prefix (successfulTaskRuns \<sigma>) (successfulTaskRuns \<sigma>')"

section \<open>Example clusters\<close>

text \<open>
  A cluster holding tasks and taskruns (each taskrun with the task named by its
  \<open>tekton.dev/task\<close> label); listing may be forbidden. Deleting what is absent fails.
\<close>

record kube =
  tasks :: "string list"
  taskruns :: "(string \<times> string) list"
  list_forbidden :: bool

definition dq :: "string \<Rightarrow> string" where
  "dq name = [CHR 0x22] @ name @ [CHR 0x22]"

definition kube_cs :: "kube Clientset" where
  "kube_cs =
     \<lparr>TasksDelete = (\<lambda>ns n k.
          if n \<in> set (tasks k) then (None, k\<lparr>tasks := removeAll n (tasks k)\<rparr>)
          else (Some (''tasks.tekton.dev '' @ dq n @ '' not found''), k)),
      TaskRunsList = (\<lambda>ns sel k.
          if list_forbidden k then (Inl ''taskruns.tekton.dev is forbidden'', k)
          else (Inr (map fst (filter (\<lambda>tr. LabelSelector (snd tr) = sel) (taskruns k))), k)),
      TaskRunsDelete = (\<lambda>ns n k.
          if n \<in> fst ` set (taskruns k)
          then (None, k\<lparr>taskruns := filter (\<lambda>tr. fst tr \<noteq> n) (taskruns k)\<rparr>)
          else (Some (''taskruns.tekton.dev '' @ dq n @ '' not found''), k)),
      TriggerTemplatesDelete = (\<lambda>ns n k.
          (Some (''triggertemplates.triggers.tekton.dev '' @ dq n @ '' not found''), k))\<rparr>"

definition kube_params :: "kube Params" where
  "kube_params = \<lparr>Clients = Inr kube_cs, Namespace = ''quux''\<rparr>"

definition no_client :: "kube Params" where
  "no_client = \<lparr>Clients = Inl ''invalid configuration: no configuration has been provided'',
                Namespace = ''quux''\<rparr>"

definition stream0 :: Stream where
  "stream0 = \<lparr>Out = [], Err = []\<rparr>"

definition opts_plain :: DeleteOptions where
  "opts_plain = \<lparr>Resource = ''task'', ForceDelete = False, DeleteAll = False\<rparr>"

definition opts_all :: DeleteOptions where
  "opts_all = \<lparr>Resource = ''task'', ForceDelete = False, DeleteAll = True\<rparr>"

text \<open>A clientset whose task deletion fails exactly on the names in \<open>S\<close>, whatever the state.\<close>

definition failing_cs :: "string set \<Rightarrow> unit Clientset" where
  "failing_cs S =
     \<lparr>TasksDelete = (\<lambda>ns n u. (if n \<in> S then Some ''not found'' else None, u)),
      TaskRunsList = (\<lambda>ns sel u. (Inr [], u)),
      TaskRunsDelete = (\<lambda>ns n u. (None, u)),
      TriggerTemplatesDelete = (\<lambda>ns n u. (if n \<in> S then Some ''not found'' else None, u))\<rparr>"

definition failing_params :: "string set \<Rightarrow> unit Params" where
  "failing_params S = \<lparr>Clients = Inr (failing_cs S), Namespace = ''quux''\<rparr>"

text \<open>Task \<open>foo\<close> with two runs, task \<open>b\<close> with none, and no task \<open>a\<close>.\<close>

definition kube1 :: kube where
  "kube1 = \<lparr>tasks = [''foo'', ''b''],
            taskruns = [(''foo-run-1'', ''foo''), (''foo-run-2'', ''foo'')],
            list_forbidden = False\<rparr>"

text \<open>The same cluster when listing taskruns is forbidden.\<close>

definition kube2 :: kube where
  "kube2 = kube1\<lparr>list_forbidden := True\<rparr>"

section \<open>Lemmas on the loops\<close>

subsection \<open>The locals agree with the history\<close>

lemma map_filter_append:
  "List.map_filter f (xs @ ys) = List.map_filter f xs @ List.map_filter f ys"
  by (simp add: List.map_filter_def)



lemma agrees_init: "agrees q st (init st c)"
  by (simp add: agrees_def init_def)

lemma agrees_deleteTaskRuns:
  "agrees q st \<sigma> \<Longrightarrow> agrees q st (deleteTaskRuns q cs ns trs \<sigma>)"
proof (induction trs arbitrary: \<sigma>)
  case Nil
  then show ?case by simp
next
  case (Cons tr trs)
  obtain r c' where call: "TaskRunsDelete cs ns tr (cluster \<sigma>) = (r, c')"
    by (cases "TaskRunsDelete cs ns tr (cluster \<sigma>)")
  show ?case
  proof (cases r)
    case None
    have "agrees q st (\<sigma>\<lparr>cluster := c', calls := calls \<sigma> @ [TaskRuns_Delete ns tr None],
                          successfulTaskRuns := successfulTaskRuns \<sigma> @ [tr]\<rparr>)"
      using Cons.prems by (simp add: agrees_def map_filter_append)
    from Cons.IH [OF this] show ?thesis
      using call None by simp
  next
    case (Some e)
    have "agrees q st (addPrintErr (Errorf_taskrun q tr e)
             (\<sigma>\<lparr>cluster := c', calls := calls \<sigma> @ [TaskRuns_Delete ns tr (Some e)]\<rparr>))"
      using Cons.prems
      by (simp add: agrees_def map_filter_append addPrintErr_def)
    from Cons.IH [OF this] show ?thesis
      using call Some by simp
  qed
qed

lemma agrees_body:
  assumes "agrees q st \<sigma>"
  shows "agrees q st (deleteTask_body q opts cs ns tName \<sigma>)"
proof -
  obtain r c' where call: "TasksDelete cs ns tName (cluster \<sigma>) = (r, c')"
    by (cases "TasksDelete cs ns tName (cluster \<sigma>)")
  show ?thesis
  proof (cases r)
    case (Some e)
    then show ?thesis
      using assms call
      by (simp add: deleteTask_body_def agrees_def map_filter_append
          addPrintErr_def)
  next
    case None
    let ?\<sigma>2 = "\<sigma>\<lparr>cluster := c', calls := calls \<sigma> @ [Tasks_Delete ns tName None],
                 successfulTasks := successfulTasks \<sigma> @ [tName]\<rparr>"
    have a2: "agrees q st ?\<sigma>2"
      using assms by (simp add: agrees_def map_filter_append)
    show ?thesis
    proof (cases "DeleteAll opts")
      case False
      then show ?thesis using a2 call None by (simp add: deleteTask_body_def)
    next
      case True
      obtain l c'' where lst: "TaskRunsList cs ns (LabelSelector tName) c' = (l, c'')"
        by (cases "TaskRunsList cs ns (LabelSelector tName) c'")
      let ?\<sigma>3 = "?\<sigma>2\<lparr>cluster := c'',
                     calls := calls ?\<sigma>2 @ [TaskRuns_List ns (LabelSelector tName) l]\<rparr>"
      show ?thesis
      proof (cases l)
        case (Inl e)
        have "agrees q st (addPrintErr e ?\<sigma>3)"
          using a2 Inl
          by (simp add: agrees_def map_filter_append addPrintErr_def)
        then show ?thesis
          using call None True lst Inl by (simp add: deleteTask_body_def)
      next
        case (Inr items)
        have "agrees q st ?\<sigma>3"
          using a2 Inr by (simp add: agrees_def map_filter_append)
        from agrees_deleteTaskRuns [OF this, of cs ns items] show ?thesis
          using call None True lst Inr by (simp add: deleteTask_body_def)
      qed
    qed
  qed
qed

lemma agrees_loop:
  "agrees q st \<sigma> \<Longrightarrow> agrees q st (deleteTask_loop q opts cs ns tNames \<sigma>)"
  by (induction tNames arbitrary: \<sigma>) (simp_all add: agrees_body)

subsection \<open>Unfolding a run\<close>

lemma loop_append:
  "deleteTask_loop q opts cs ns (xs @ ys) \<sigma> =
     deleteTask_loop q opts cs ns ys (deleteTask_loop q opts cs ns xs \<sigma>)"
  by (induction xs arbitrary: \<sigma>) simp_all

lemma printSuccess_fields:
  "cluster (printSuccess \<sigma>) = cluster \<sigma>"
  "calls (printSuccess \<sigma>) = calls \<sigma>"
  "errs (printSuccess \<sigma>) = errs \<sigma>"
  "successfulTasks (printSuccess \<sigma>) = successfulTasks \<sigma>"
  "successfulTaskRuns (printSuccess \<sigma>) = successfulTaskRuns \<sigma>"
  "Err (s (printSuccess \<sigma>)) = Err (s \<sigma>)"
  by (simp_all add: printSuccess_def Let_def)

lemma printSuccess_Out:
  "Out (s (printSuccess \<sigma>)) = Out (s \<sigma>) @
     (if successfulTaskRuns \<sigma> = [] then []
      else [''TaskRuns deleted: '' @ QuotedList (successfulTaskRuns \<sigma>) @ newline]) @
     (if successfulTasks \<sigma> = [] then []
      else [''Tasks deleted: '' @ QuotedList (successfulTasks \<sigma>) @ newline])"
  by (simp add: printSuccess_def Let_def)


lemma deleteTask_Inr:
  "Clients p = Inr cs \<Longrightarrow>
   deleteTask q opts st p c tNames =
     (multierr_Combine (errs (deleteTask_loop q opts cs (Namespace p) tNames (init st c))),
      printSuccess (deleteTask_loop q opts cs (Namespace p) tNames (init st c)))"
  by (simp add: deleteTask_def Let_def printSuccess_fields)

lemma deleteTask_Inl:
  "Clients p = Inl e \<Longrightarrow>
   deleteTask q opts st p c tNames = (Some ''failed to create tekton client'', init st c)"
  by (simp add: deleteTask_def)

subsection \<open>The history and the lists only grow\<close>

lemma grows_refl: "grows \<sigma> \<sigma>"
  by (simp add: grows_def)

lemma grows_trans: "grows \<sigma> \<sigma>' \<Longrightarrow> grows \<sigma>' \<sigma>'' \<Longrightarrow> grows \<sigma> \<sigma>''"
  unfolding grows_def by (meson prefix_order.trans)

lemma grows_deleteTaskRuns: "grows \<sigma> (deleteTaskRuns q cs ns trs \<sigma>)"
proof (induction trs arbitrary: \<sigma>)
  case Nil
  show ?case by (simp add: grows_refl)
next
  case (Cons tr trs)
  obtain r c' where call: "TaskRunsDelete cs ns tr (cluster \<sigma>) = (r, c')"
    by (cases "TaskRunsDelete cs ns tr (cluster \<sigma>)")
  show ?case
  proof (cases r)
    case None
    let ?\<sigma>' = "\<sigma>\<lparr>cluster := c', calls := calls \<sigma> @ [TaskRuns_Delete ns tr None],
                 successfulTaskRuns := successfulTaskRuns \<sigma> @ [tr]\<rparr>"
    have "grows \<sigma> ?\<sigma>'" by (simp add: grows_def)
    from grows_trans [OF this Cons.IH [of ?\<sigma>']] show ?thesis
      using call None by simp
  next
    case (Some e)
    let ?\<sigma>' = "addPrintErr (Errorf_taskrun q tr e)
                 (\<sigma>\<lparr>cluster := c', calls := calls \<sigma> @ [TaskRuns_Delete ns tr (Some e)]\<rparr>)"
    have "grows \<sigma> ?\<sigma>'" by (simp add: grows_def addPrintErr_def)
    from grows_trans [OF this Cons.IH [of ?\<sigma>']] show ?thesis
      using call Some by simp
  qed
qed

lemma grows_body: "grows \<sigma> (deleteTask_body q opts cs ns tName \<sigma>)"
proof -
  obtain r c' where call: "TasksDelete cs ns tName (cluster \<sigma>) = (r, c')"
    by (cases "TasksDelete cs ns tName (cluster \<sigma>)")
  show ?thesis
  proof (cases r)
    case (Some e)
    then show ?thesis
      using call by (simp add: deleteTask_body_def grows_def addPrintErr_def)
  next
    case None
    let ?\<sigma>2 = "\<sigma>\<lparr>cluster := c', calls := calls \<sigma> @ [Tasks_Delete ns tName None],
                 successfulTasks := successfulTasks \<sigma> @ [tName]\<rparr>"
    have g2: "grows \<sigma> ?\<sigma>2" by (simp add: grows_def)
    show ?thesis
    proof (cases "DeleteAll opts")
      case False
      then show ?thesis using g2 call None by (simp add: deleteTask_body_def)
    next
      case True
      obtain l c'' where lst: "TaskRunsList cs ns (LabelSelector tName) c' = (l, c'')"
        by (cases "TaskRunsList cs ns (LabelSelector tName) c'")
      let ?\<sigma>3 = "?\<sigma>2\<lparr>cluster := c'',
                     calls := calls ?\<sigma>2 @ [TaskRuns_List ns (LabelSelector tName) l]\<rparr>"
      have g3: "grows \<sigma> ?\<sigma>3" by (simp add: grows_def)
      show ?thesis
      proof (cases l)
        case (Inl e)
        have "grows \<sigma> (addPrintErr e ?\<sigma>3)"
          by (simp add: grows_def addPrintErr_def)
        then show ?thesis
          using call None True lst Inl by (simp add: deleteTask_body_def)
      next
        case (Inr items)
        from grows_trans [OF g3 grows_deleteTaskRuns [of ?\<sigma>3 q cs ns items]] show ?thesis
          using call None True lst Inr by (simp add: deleteTask_body_def)
      qed
    qed
  qed
qed

lemma grows_loop: "grows \<sigma> (deleteTask_loop q opts cs ns tNames \<sigma>)"
proof (induction tNames arbitrary: \<sigma>)
  case Nil
  show ?case by (simp add: grows_refl)
next
  case (Cons tName rest)
  from grows_trans [OF grows_body Cons.IH] show ?case by simp
qed

subsection \<open>Without cascade an iteration makes the one call\<close>

lemma body_no_cascade_calls:
  "\<not> DeleteAll opts \<Longrightarrow>
   calls (deleteTask_body q opts cs ns tName \<sigma>) =
     calls \<sigma> @ [Tasks_Delete ns tName (fst (TasksDelete cs ns tName (cluster \<sigma>)))]"
  by (simp add: deleteTask_body_def addPrintErr_def Let_def split: prod.splits option.splits)

lemma loop_no_cascade_no_list:
  "\<not> DeleteAll opts \<Longrightarrow> \<forall>x \<in> set (calls \<sigma>). \<not> is_TaskRuns_List x \<Longrightarrow>
   \<forall>x \<in> set (calls (deleteTask_loop q opts cs ns tNames \<sigma>)). \<not> is_TaskRuns_List x"
proof (induction tNames arbitrary: \<sigma>)
  case Nil
  then show ?case by simp
next
  case (Cons tName rest)
  have "\<forall>x \<in> set (calls (deleteTask_body q opts cs ns tName \<sigma>)). \<not> is_TaskRuns_List x"
    using Cons.prems by (simp add: body_no_cascade_calls)
  from Cons.IH [OF Cons.prems(1) this] show ?case by simp
qed

subsection \<open>What the inner loop leaves alone\<close>




subsection \<open>One iteration when task deletion fails exactly on \<open>S\<close>\<close>







subsection \<open>One iteration inside a run\<close>

lemma deleteTask_split:
  assumes "Clients p = Inr cs" and "tNames = pre @ tName # post"
  shows "snd (deleteTask q opts st p c tNames) =
           printSuccess (deleteTask_loop q opts cs (Namespace p) post
             (deleteTask_body q opts cs (Namespace p) tName
               (deleteTask_loop q opts cs (Namespace p) pre (init st c))))"
  using assms by (simp add: deleteTask_Inr loop_append)

lemma body_delete_failed:
  assumes "TasksDelete cs ns tName (cluster \<sigma>) = (Some e, c')"
  shows "deleteTask_body q opts cs ns tName \<sigma> =
           addPrintErr (Errorf_task q tName e)
             (\<sigma>\<lparr>cluster := c', calls := calls \<sigma> @ [Tasks_Delete ns tName (Some e)]\<rparr>)"
  using assms by (simp add: deleteTask_body_def)

lemma body_list_failed:
  assumes "DeleteAll opts"
    and "TasksDelete cs ns tName (cluster \<sigma>) = (None, c')"
    and "TaskRunsList cs ns (LabelSelector tName) c' = (Inl e, c'')"
  shows "deleteTask_body q opts cs ns tName \<sigma> =
           addPrintErr e
             (\<sigma>\<lparr>cluster := c'',
                 calls := calls \<sigma> @ [Tasks_Delete ns tName None,
                                      TaskRuns_List ns (LabelSelector tName) (Inl e)],
                 successfulTasks := successfulTasks \<sigma> @ [tName]\<rparr>)"
  using assms by (simp add: deleteTask_body_def addPrintErr_def)

lemma grows_printSuccess: "grows \<sigma> (printSuccess \<sigma>)"
  by (simp add: grows_def printSuccess_fields)

subsection \<open>Evaluating concrete runs\<close>

lemmas run_simps =
  deleteTask_def deleteTask_body_def addPrintErr_def printSuccess_def init_def Let_def
  Errorf_task_def Errorf_taskrun_def LabelSelector_def QuotedList_def quoted_def newline_def
  kube_cs_def kube_params_def kube1_def kube2_def stream0_def opts_all_def opts_plain_def dq_def
  failing_cs_def failing_params_def no_client_def deleteTriggerTemplates_def tt_init_def
  Errorf_triggertemplate_def

section \<open>The claims\<close>





text \<open>
  Claim C3. Take any name \<open>tName\<close> of the request, \<open>\<sigma>0\<close> the state when its iteration
  starts and \<open>\<sigma>1\<close> the state when it ends. If the deletion of the task fails, the
  iteration makes that one call and no other (no lookup, no deletion of a taskrun) and
  leaves both lists of successes as they were. If the deletion succeeds and the lookup of
  the taskruns then fails, \<open>tName\<close> has been appended to \<open>successfulTasks\<close> and is still
  there in the final state.
\<close>

theorem cascade_conditioned_on_success:
  assumes "Clients p = Inr cs" and "tNames = pre @ tName # post"
    and "\<sigma>0 = deleteTask_loop q opts cs (Namespace p) pre (init st c)"
    and "\<sigma>1 = deleteTask_body q opts cs (Namespace p) tName \<sigma>0"
    and "\<sigma>f = snd (deleteTask q opts st p c tNames)"
  shows "\<sigma>f = printSuccess (deleteTask_loop q opts cs (Namespace p) post \<sigma>1) \<and>
         (\<forall>e c'. TasksDelete cs (Namespace p) tName (cluster \<sigma>0) = (Some e, c') \<longrightarrow>
            calls \<sigma>1 = calls \<sigma>0 @ [Tasks_Delete (Namespace p) tName (Some e)] \<and>
            cluster \<sigma>1 = c' \<and>
            successfulTasks \<sigma>1 = successfulTasks \<sigma>0 \<and>
            successfulTaskRuns \<sigma>1 = successfulTaskRuns \<sigma>0) \<and>
         (\<forall>c' e c''. DeleteAll opts \<and>
            TasksDelete cs (Namespace p) tName (cluster \<sigma>0) = (None, c') \<and>
            TaskRunsList cs (Namespace p) (LabelSelector tName) c' = (Inl e, c'') \<longrightarrow>
            successfulTasks \<sigma>1 = successfulTasks \<sigma>0 @ [tName] \<and>
            prefix (successfulTasks \<sigma>1) (successfulTasks \<sigma>f) \<and>
            tName \<in> set (successfulTasks \<sigma>f))"
proof -
  have split: "\<sigma>f = printSuccess (deleteTask_loop q opts cs (Namespace p) post \<sigma>1)"
    using deleteTask_split [OF assms(1,2)] assms(3,4,5) by simp
  have "grows \<sigma>1 (deleteTask_loop q opts cs (Namespace p) post \<sigma>1)"
    by (rule grows_loop)
  then have pre: "prefix (successfulTasks \<sigma>1) (successfulTasks \<sigma>f)"
    by (simp add: split grows_def printSuccess_fields)
  have failed: "calls \<sigma>1 = calls \<sigma>0 @ [Tasks_Delete (Namespace p) tName (Some e)] \<and>
      cluster \<sigma>1 = c' \<and> successfulTasks \<sigma>1 = successfulTasks \<sigma>0 \<and>
      successfulTaskRuns \<sigma>1 = successfulTaskRuns \<sigma>0"
    if "TasksDelete cs (Namespace p) tName (cluster \<sigma>0) = (Some e, c')" for e c'
    using body_delete_failed [OF that, of q opts] assms(4) by (simp add: addPrintErr_def)
  have kept: "successfulTasks \<sigma>1 = successfulTasks \<sigma>0 @ [tName] \<and>
      prefix (successfulTasks \<sigma>1) (successfulTasks \<sigma>f) \<and> tName \<in> set (successfulTasks \<sigma>f)"
    if "DeleteAll opts" and "TasksDelete cs (Namespace p) tName (cluster \<sigma>0) = (None, c')"
      and "TaskRunsList cs (Namespace p) (LabelSelector tName) c' = (Inl e, c'')" for c' e c''
  proof -
    have 1: "successfulTasks \<sigma>1 = successfulTasks \<sigma>0 @ [tName]"
      using body_list_failed [OF that, of q] assms(4) by (simp add: addPrintErr_def)
    then have "tName \<in> set (successfulTasks \<sigma>1)" by simp
    with pre have "tName \<in> set (successfulTasks \<sigma>f)"
      using set_mono_prefix by blast
    with 1 pre show ?thesis by simp
  qed
  from split failed kept show ?thesis by blast
qed

theorem cascade_conditioned_on_success_witness:
  "calls (deleteTask_body dq opts_all kube_cs ''quux'' ''a'' (init stream0 kube2)) =
     [Tasks_Delete ''quux'' ''a'' (Some (''tasks.tekton.dev '' @ dq ''a'' @ '' not found''))] \<and>
   successfulTasks (deleteTask_body dq opts_all kube_cs ''quux'' ''a'' (init stream0 kube2)) = [] \<and>
   ''foo'' \<in> set (successfulTasks
      (snd (deleteTask dq opts_all stream0 kube_params kube2 [''a'', ''foo'', ''b''])))"
proof -
  have cl: "Clients kube_params = Inr kube_cs" and ns: "Namespace kube_params = ''quux''"
    by (simp_all add: kube_params_def)
  have a: "TasksDelete kube_cs ''quux'' ''a'' (cluster (init stream0 kube2)) =
             (Some (''tasks.tekton.dev '' @ dq ''a'' @ '' not found''), kube2)"
    by (simp add: run_simps)
  have foo0: "deleteTask_loop dq opts_all kube_cs ''quux'' [''a''] (init stream0 kube2) =
      addPrintErr (Errorf_task dq ''a'' (''tasks.tekton.dev '' @ dq ''a'' @ '' not found''))
        ((init stream0 kube2)\<lparr>calls := [Tasks_Delete ''quux'' ''a''
            (Some (''tasks.tekton.dev '' @ dq ''a'' @ '' not found''))]\<rparr>)"
    by (simp add: run_simps)
  have foo: "DeleteAll opts_all \<and>
      TasksDelete kube_cs ''quux'' ''foo''
        (cluster (deleteTask_loop dq opts_all kube_cs ''quux'' [''a''] (init stream0 kube2))) =
        (None, kube2\<lparr>tasks := [''b'']\<rparr>) \<and>
      TaskRunsList kube_cs ''quux'' (LabelSelector ''foo'') (kube2\<lparr>tasks := [''b'']\<rparr>) =
        (Inl ''taskruns.tekton.dev is forbidden'', kube2\<lparr>tasks := [''b'']\<rparr>)"
    unfolding foo0 by (simp add: run_simps)
  have sp1: "[''a'', ''foo'', ''b''] = [] @ ''a'' # [''foo'', ''b'']" by simp
  have sp2: "[''a'', ''foo'', ''b''] = [''a''] @ ''foo'' # [''b'']" by simp
  from cascade_conditioned_on_success [where q = dq and opts = opts_all and st = stream0
        and c = kube2, OF cl sp1 refl refl refl]
  have 1: "calls (deleteTask_body dq opts_all kube_cs ''quux'' ''a'' (init stream0 kube2)) =
      [Tasks_Delete ''quux'' ''a'' (Some (''tasks.tekton.dev '' @ dq ''a'' @ '' not found''))] \<and>
      successfulTasks (deleteTask_body dq opts_all kube_cs ''quux'' ''a'' (init stream0 kube2)) = []"
    using a by (simp add: ns init_def)
  from cascade_conditioned_on_success [where q = dq and opts = opts_all and st = stream0
        and c = kube2, OF cl sp2 refl refl refl]
  have 2: "''foo'' \<in> set (successfulTasks
      (snd (deleteTask dq opts_all stream0 kube_params kube2 [''a'', ''foo'', ''b''])))"
    using foo unfolding ns by blast
  from 1 2 show ?thesis by simp
qed

text \<open>
  Claim C4. When \<open>DeleteAll\<close> is false, no call of \<open>TaskRuns(...).List\<close> occurs in the
  history of a run, whatever the cluster holds and whatever the deletions return.
\<close>

theorem no_cascade_never_lists:
  "\<not> DeleteAll opts \<Longrightarrow>
   \<forall>x \<in> set (calls (snd (deleteTask q opts st p c tNames))). \<not> is_TaskRuns_List x"
proof (cases "Clients p")
  case (Inl e)
  then show ?thesis by (simp add: deleteTask_Inl init_def)
next
  case (Inr cs)
  assume "\<not> DeleteAll opts"
  from loop_no_cascade_no_list [OF this, of "init st c" q cs "Namespace p" tNames]
  show ?thesis using Inr by (simp add: deleteTask_Inr printSuccess_fields init_def)
qed

theorem no_cascade_never_lists_witness:
  "\<not> DeleteAll opts_plain \<and>
   list_all (\<lambda>x. \<not> is_TaskRuns_List x)
     (calls (snd (deleteTask dq opts_plain stream0 kube_params kube1 [''a'', ''foo''])))"
proof -
  have h: "\<not> DeleteAll opts_plain"
    by (simp add: opts_plain_def)
  from no_cascade_never_lists [OF h, of dq stream0 kube_params kube1 "[''a'', ''foo'']"] h
  show ?thesis by (simp add: list_all_iff)
qed

text \<open>
  Claim C5, as amended. If the deletion of \<open>tName\<close> succeeded and the lookup of its
  taskruns failed with the error \<open>e\<close>, then \<open>tName\<close> is in the final \<open>successfulTasks\<close>,
  the iteration records exactly one more failure, which is \<open>e\<close> itself, unchanged, and
  prints it on \<open>s.Err\<close>; the iteration makes the two calls only and deletes no taskrun.
\<close>

theorem lookup_failure_recorded_once:
  assumes "Clients p = Inr cs" and "tNames = pre @ tName # post"
    and "\<sigma>0 = deleteTask_loop q opts cs (Namespace p) pre (init st c)"
    and "\<sigma>1 = deleteTask_body q opts cs (Namespace p) tName \<sigma>0"
    and "\<sigma>f = snd (deleteTask q opts st p c tNames)"
    and "DeleteAll opts"
    and "TasksDelete cs (Namespace p) tName (cluster \<sigma>0) = (None, c')"
    and "TaskRunsList cs (Namespace p) (LabelSelector tName) c' = (Inl e, c'')"
  shows "tName \<in> set (successfulTasks \<sigma>f) \<and>
         errs \<sigma>1 = errs \<sigma>0 @ [e] \<and>
         prefix (errs \<sigma>1) (errs \<sigma>f) \<and>
         Err (s \<sigma>1) = Err (s \<sigma>0) @ [e @ newline] \<and>
         calls \<sigma>1 = calls \<sigma>0 @ [Tasks_Delete (Namespace p) tName None,
                                 TaskRuns_List (Namespace p) (LabelSelector tName) (Inl e)] \<and>
         successfulTaskRuns \<sigma>1 = successfulTaskRuns \<sigma>0"
proof -
  have split: "\<sigma>f = printSuccess (deleteTask_loop q opts cs (Namespace p) post \<sigma>1)"
    using deleteTask_split [OF assms(1,2)] assms(3,4,5) by simp
  have "grows \<sigma>1 (deleteTask_loop q opts cs (Namespace p) post \<sigma>1)"
    by (rule grows_loop)
  then have pre: "prefix (successfulTasks \<sigma>1) (successfulTasks \<sigma>f)"
    and pre_errs: "prefix (errs \<sigma>1) (errs \<sigma>f)"
    by (simp_all add: split grows_def printSuccess_fields)
  have step: "\<sigma>1 = addPrintErr e
      (\<sigma>0\<lparr>cluster := c'',
          calls := calls \<sigma>0 @ [Tasks_Delete (Namespace p) tName None,
                               TaskRuns_List (Namespace p) (LabelSelector tName) (Inl e)],
          successfulTasks := successfulTasks \<sigma>0 @ [tName]\<rparr>)"
    using body_list_failed [OF assms(6,7,8), of q] assms(4) by simp
  then have "tName \<in> set (successfulTasks \<sigma>1)" by (simp add: addPrintErr_def)
  with pre have "tName \<in> set (successfulTasks \<sigma>f)"
    using set_mono_prefix by blast
  with pre_errs show ?thesis
    by (simp add: step addPrintErr_def)
qed

theorem lookup_failure_recorded_once_witness:
  "Clients kube_params = Inr kube_cs \<and> DeleteAll opts_all \<and>
   ''foo'' \<in> set (successfulTasks
      (snd (deleteTask dq opts_all stream0 kube_params kube2 [''a'', ''foo'', ''b'']))) \<and>
   errs (deleteTask_body dq opts_all kube_cs ''quux'' ''foo''
          (deleteTask_loop dq opts_all kube_cs ''quux'' [''a''] (init stream0 kube2))) =
     errs (deleteTask_loop dq opts_all kube_cs ''quux'' [''a''] (init stream0 kube2)) @
     [''taskruns.tekton.dev is forbidden'']"
proof -
  have cl: "Clients kube_params = Inr kube_cs" and ns: "Namespace kube_params = ''quux''"
    by (simp_all add: kube_params_def)
  have sp: "[''a'', ''foo'', ''b''] = [''a''] @ ''foo'' # [''b'']" by simp
  have all: "DeleteAll opts_all"
    by (simp add: opts_all_def)
  have del: "TasksDelete kube_cs (Namespace kube_params) ''foo''
        (cluster (deleteTask_loop dq opts_all kube_cs (Namespace kube_params) [''a'']
                   (init stream0 kube2))) =
        (None, kube2\<lparr>tasks := [''b'']\<rparr>)"
    by (simp add: run_simps)
  have lst: "TaskRunsList kube_cs (Namespace kube_params) (LabelSelector ''foo'')
        (kube2\<lparr>tasks := [''b'']\<rparr>) =
        (Inl ''taskruns.tekton.dev is forbidden'', kube2\<lparr>tasks := [''b'']\<rparr>)"
    by (simp add: run_simps)
  from lookup_failure_recorded_once [where q = dq and st = stream0 and c = kube2,
        OF cl sp refl refl refl all del lst] cl all
  show ?thesis by (simp add: ns)
qed

text \<open>
  The recorded entry carries no reference to the task: in a cluster where listing is
  forbidden, deleting \<open>foo\<close> with cascade records the error of \<open>List\<close>, in which \<open>foo\<close>
  does not occur, and deleting \<open>b\<close> records the same entry.
\<close>

theorem lookup_failure_not_attributed:
  "successfulTasks (snd (deleteTask dq opts_all stream0 kube_params kube2 [''foo''])) = [''foo''] \<and>
   errs (snd (deleteTask dq opts_all stream0 kube_params kube2 [''foo''])) =
     [''taskruns.tekton.dev is forbidden''] \<and>
   errs (snd (deleteTask dq opts_all stream0 kube_params kube2 [''b''])) =
     [''taskruns.tekton.dev is forbidden''] \<and>
   \<not> sublist ''foo'' ''taskruns.tekton.dev is forbidden''"
proof -
  have "\<not> sublist ''foo'' ''taskruns.tekton.dev is forbidden''"
    by code_simp
  then show ?thesis by (simp add: run_simps)
qed

text \<open>
  Claim C6. What a run writes to \<open>s.Out\<close> is: the line \<open>TaskRuns deleted:\<close> with the names
  of \<open>successfulTaskRuns\<close>, each quoted and joined by a comma and a space, if that list is
  not empty; then the line \<open>Tasks deleted:\<close> with the names of \<open>successfulTasks\<close> in the
  same format, if that list is not empty; and nothing else. The two lists hold the names
  of the taskruns and of the tasks whose deletion succeeded, in the order of the calls.
\<close>

theorem success_lines:
  "Out (s (snd (deleteTask q opts st p c tNames))) =
     Out st @
     (if successfulTaskRuns (snd (deleteTask q opts st p c tNames)) = [] then []
      else [''TaskRuns deleted: '' @
            joinWith '', '' (map quoted (successfulTaskRuns (snd (deleteTask q opts st p c tNames)))) @
            newline]) @
     (if successfulTasks (snd (deleteTask q opts st p c tNames)) = [] then []
      else [''Tasks deleted: '' @
            joinWith '', '' (map quoted (successfulTasks (snd (deleteTask q opts st p c tNames)))) @
            newline]) \<and>
   successfulTaskRuns (snd (deleteTask q opts st p c tNames)) =
     List.map_filter deleted_taskrun (calls (snd (deleteTask q opts st p c tNames))) \<and>
   successfulTasks (snd (deleteTask q opts st p c tNames)) =
     List.map_filter deleted_task (calls (snd (deleteTask q opts st p c tNames)))"
proof (cases "Clients p")
  case (Inl e)
  then show ?thesis by (simp add: deleteTask_Inl init_def)
next
  case (Inr cs)
  have "agrees q st (deleteTask_loop q opts cs (Namespace p) tNames (init st c))"
    by (rule agrees_loop [OF agrees_init])
  then show ?thesis
    using Inr
    by (simp add: deleteTask_Inr printSuccess_fields printSuccess_Out agrees_def QuotedList_def)
qed

theorem success_lines_witness:
  "Out (s (snd (deleteTask dq opts_all stream0 kube_params kube1 [''a'', ''foo'', ''b'']))) =
     [''TaskRuns deleted: '' @ quoted ''foo-run-1'' @ '', '' @ quoted ''foo-run-2'' @ newline,
      ''Tasks deleted: '' @ quoted ''foo'' @ '', '' @ quoted ''b'' @ newline] \<and>
   Out (s (snd (deleteTask dq opts_plain stream0 kube_params kube1 [''a'', ''foo'']))) =
     [''Tasks deleted: '' @ quoted ''foo'' @ newline] \<and>
   Out (s (snd (deleteTask dq opts_all stream0 kube_params kube1 [''a'']))) = []"
proof -
  have o: "Out stream0 = []"
    by (simp add: stream0_def)
  have 1: "successfulTaskRuns
        (snd (deleteTask dq opts_all stream0 kube_params kube1 [''a'', ''foo'', ''b''])) =
        [''foo-run-1'', ''foo-run-2''] \<and>
      successfulTasks
        (snd (deleteTask dq opts_all stream0 kube_params kube1 [''a'', ''foo'', ''b''])) =
        [''foo'', ''b'']"
    by (simp add: run_simps)
  have 2: "successfulTaskRuns
        (snd (deleteTask dq opts_plain stream0 kube_params kube1 [''a'', ''foo''])) = [] \<and>
      successfulTasks
        (snd (deleteTask dq opts_plain stream0 kube_params kube1 [''a'', ''foo''])) = [''foo'']"
    by (simp add: run_simps)
  have 3: "successfulTaskRuns
        (snd (deleteTask dq opts_all stream0 kube_params kube1 [''a''])) = [] \<and>
      successfulTasks (snd (deleteTask dq opts_all stream0 kube_params kube1 [''a''])) = []"
    by (simp add: run_simps)
  from success_lines [of dq opts_all stream0 kube_params kube1 "[''a'', ''foo'', ''b'']"]
    success_lines [of dq opts_plain stream0 kube_params kube1 "[''a'', ''foo'']"]
    success_lines [of dq opts_all stream0 kube_params kube1 "[''a'']"]
  show ?thesis
    by (simp add: 1 2 3 o)
qed

text \<open>
  Claim C7, as amended. What a run writes to \<open>s.Err\<close> is one write for each recorded
  failure, the message followed by a newline, in the order of \<open>errs\<close>; and \<open>errs\<close> holds
  one entry for each call that returned an error, in the order of the calls: for a
  deletion the message built by \<open>fmt.Errorf\<close> from the kind, the name and the cause
  (\<open>failure_of\<close>), for a lookup the error of \<open>List\<close> as it is.
\<close>

theorem failure_lines:
  "Err (s (snd (deleteTask q opts st p c tNames))) =
     Err st @ map (\<lambda>e. e @ newline) (errs (snd (deleteTask q opts st p c tNames))) \<and>
   errs (snd (deleteTask q opts st p c tNames)) =
     List.map_filter (failure_of q) (calls (snd (deleteTask q opts st p c tNames)))"
proof (cases "Clients p")
  case (Inl e)
  then show ?thesis by (simp add: deleteTask_Inl init_def)
next
  case (Inr cs)
  have "agrees q st (deleteTask_loop q opts cs (Namespace p) tNames (init st c))"
    by (rule agrees_loop [OF agrees_init])
  then show ?thesis
    using Inr by (simp add: deleteTask_Inr printSuccess_fields agrees_def)
qed

theorem failure_lines_witness:
  "Err (s (snd (deleteTask dq opts_all stream0 kube_params
                  (kube1\<lparr>taskruns := [(''foo-run-1'', ''foo'')]\<rparr>) [''a'', ''foo'']))) =
     [''failed to delete task '' @ dq ''a'' @ '': tasks.tekton.dev '' @ dq ''a'' @
        '' not found'' @ newline]"
proof -
  have e: "Err stream0 = []"
    by (simp add: stream0_def)
  have "calls (snd (deleteTask dq opts_all stream0 kube_params
                  (kube1\<lparr>taskruns := [(''foo-run-1'', ''foo'')]\<rparr>) [''a'', ''foo''])) =
      [Tasks_Delete ''quux'' ''a'' (Some (''tasks.tekton.dev '' @ dq ''a'' @ '' not found'')),
       Tasks_Delete ''quux'' ''foo'' None,
       TaskRuns_List ''quux'' (LabelSelector ''foo'') (Inr [''foo-run-1'']),
       TaskRuns_Delete ''quux'' ''foo-run-1'' None]"
    by (simp add: run_simps)
  with failure_lines [of dq opts_all stream0 kube_params
      "kube1\<lparr>taskruns := [(''foo-run-1'', ''foo'')]\<rparr>" "[''a'', ''foo'']"]
  show ?thesis
    by (simp add: Errorf_task_def e)
qed

text \<open>
  The line printed for a failed lookup is the message of the error of \<open>List\<close>; it does not
  begin with \<open>failed to delete\<close>.
\<close>

theorem list_failure_line_has_other_form:
  "Err (s (snd (deleteTask dq opts_all stream0 kube_params kube2 [''foo'']))) =
     [''taskruns.tekton.dev is forbidden'' @ newline] \<and>
   \<not> prefix ''failed to delete '' (''taskruns.tekton.dev is forbidden'' @ newline)"
  by (simp add: run_simps)

text \<open>
  Claim C8. If \<open>p.Clients()\<close> fails, \<open>deleteTask\<close> returns an error at once: no call is
  made, the cluster is unchanged, nothing is recorded and nothing is printed.
\<close>

theorem clients_failure_aborts:
  "Clients p = Inl e \<Longrightarrow>
   fst (deleteTask q opts st p c tNames) \<noteq> None \<and>
   calls (snd (deleteTask q opts st p c tNames)) = [] \<and>
   cluster (snd (deleteTask q opts st p c tNames)) = c \<and>
   errs (snd (deleteTask q opts st p c tNames)) = [] \<and>
   successfulTasks (snd (deleteTask q opts st p c tNames)) = [] \<and>
   successfulTaskRuns (snd (deleteTask q opts st p c tNames)) = [] \<and>
   s (snd (deleteTask q opts st p c tNames)) = st"
  by (simp add: deleteTask_Inl init_def)

theorem clients_failure_aborts_witness:
  "Clients no_client = Inl ''invalid configuration: no configuration has been provided'' \<and>
   fst (deleteTask dq opts_all stream0 no_client kube1 [''foo'', ''b'']) \<noteq> None \<and>
   calls (snd (deleteTask dq opts_all stream0 no_client kube1 [''foo'', ''b''])) = [] \<and>
   cluster (snd (deleteTask dq opts_all stream0 no_client kube1 [''foo'', ''b''])) = kube1 \<and>
   errs (snd (deleteTask dq opts_all stream0 no_client kube1 [''foo'', ''b''])) = [] \<and>
   s (snd (deleteTask dq opts_all stream0 no_client kube1 [''foo'', ''b''])) = stream0"
proof -
  have h: "Clients no_client = Inl ''invalid configuration: no configuration has been provided''"
    by (simp add: no_client_def)
  from clients_failure_aborts [OF h, of dq opts_all stream0 kube1 "[''foo'', ''b'']"] h
  show ?thesis by simp
qed

text \<open>
  Claim C9. If \<open>p.Clients()\<close> fails with any error \<open>e\<close>, the error returned is the fixed
  message \<open>failed to create tekton client\<close>, in \<open>deleteTask\<close> and in
  \<open>deleteTriggerTemplates\<close> alike, and nothing is printed: \<open>e\<close> is dropped.
\<close>

theorem clients_failure_fixed_message:
  "Clients p = Inl e \<Longrightarrow>
   fst (deleteTask q opts st p c tNames) = Some ''failed to create tekton client'' \<and>
   s (snd (deleteTask q opts st p c tNames)) = st \<and>
   fst (deleteTriggerTemplates q st p c tNames) = Some ''failed to create tekton client'' \<and>
   tt_s (snd (deleteTriggerTemplates q st p c tNames)) = st"
  by (simp add: deleteTask_Inl init_def deleteTriggerTemplates_def tt_init_def)

theorem clients_failure_fixed_message_witness:
  "Clients no_client = Inl ''invalid configuration: no configuration has been provided'' \<and>
   fst (deleteTask dq opts_all stream0 no_client kube1 [''foo'']) =
     Some ''failed to create tekton client'' \<and>
   fst (deleteTriggerTemplates dq stream0 no_client kube1 [''foo'']) =
     Some ''failed to create tekton client''"
proof -
  have h: "Clients no_client = Inl ''invalid configuration: no configuration has been provided''"
    by (simp add: no_client_def)
  from clients_failure_fixed_message [OF h, of dq opts_all stream0 kube1 "[''foo'']"] h
  show ?thesis by simp
qed



end
